theory Spec2Isabelle
  imports Main "HOL-Library.Char_ord" "HOL-Library.List_Lexorder"
begin

section \<open>The cascading subject / topic / subtopic filter of create\_paper.js\<close>

text \<open>
  The script keeps three JavaScript \<open>Set\<close> objects (selected subjects, topics and
  subtopics), three containers of the document (one per level), and talks to the backend
  with \<open>fetch\<close>. The embedding below follows the script function by function.

  Category identifiers are values of a linearly ordered type \<open>'a\<close>: the order stands for
  the order of \<open>Array.prototype.sort()\<close> without a comparator, which on strings compares
  UTF-16 code units lexicographically. The concrete scenarios use a small taxonomy whose
  identifiers are plain ASCII words, ordered by their names.
\<close>

subsection \<open>JavaScript \<open>Set\<close> objects\<close>

text \<open>
  A \<open>Set\<close> is its entry list \<open>[[SetData]]\<close>: \<open>add\<close> appends a value that is not yet
  there, \<open>clear\<close> replaces every entry by the empty marker (here \<open>None\<close>) without
  shortening the list, and an iterator is an index into the list that skips the empty
  markers. An iterator that is suspended across an \<open>await\<close> therefore sees what a later
  \<open>clear\<close> and \<open>add\<close> did to the same object.
\<close>

type_synonym 'a setdata = "'a option list"

definition set_clear :: "'a setdata \<Rightarrow> 'a setdata" where
  "set_clear d = map (\<lambda>_. None) d"

definition set_add :: "'a \<Rightarrow> 'a setdata \<Rightarrow> 'a setdata" where
  "set_add x d = (if Some x \<in> set d then d else d @ [Some x])"

definition set_values :: "'a setdata \<Rightarrow> 'a list" where
  "set_values d = List.map_filter id d"

definition set_size :: "'a setdata \<Rightarrow> nat" where
  "set_size d = length (set_values d)"

text \<open>
  One step of a Set iterator standing at index \<open>i\<close>: the next value and the index behind
  it, or \<open>None\<close> when the entries are exhausted.
\<close>

definition set_iter_next :: "'a setdata \<Rightarrow> nat \<Rightarrow> ('a \<times> nat) option" where
  "set_iter_next d i =
     (case dropWhile (\<lambda>e. e = None) (drop i d) of
        [] \<Rightarrow> None
      | None # _ \<Rightarrow> None
      | Some x # rest \<Rightarrow> Some (x, length d - length rest))"

text \<open>
  \<open>allTopics\<close> and \<open>allSubtopics\<close> are Sets local to one call that are only added to:
  their entry list has no empty marker, so a list without duplicates in insertion order
  is the whole object.
\<close>

definition local_add :: "'a \<Rightarrow> 'a list \<Rightarrow> 'a list" where
  "local_add x xs = (if x \<in> set xs then xs else xs @ [x])"

subsection \<open>Errors, backend responses, containers and the page\<close>

datatype js_error = ReferenceError string

text \<open>The \<open>message\<close> property of the error, in the wording of V8 and SpiderMonkey.\<close>

fun message :: "js_error \<Rightarrow> string" where
  "message (ReferenceError name) = name @ '' is not defined''"

text \<open>
  What the two awaits of one request (\<open>fetch\<close>, then \<open>response.json()\<close>) come back
  with: a body whose \<open>status\<close> is \<open>'success'\<close> and its list of children, a body with
  another status and its \<open>message\<close>, or an error thrown inside the \<open>try\<close> (the request
  is rejected by a network failure, the body is not JSON, or a success body has no list
  of children) with the message of that error.
\<close>

datatype 'a outcome = Success "'a list" | NonSuccess string | Rejected string

text \<open>
  The content of a container after \<open>innerHTML\<close> was assigned: a muted line of text, the
  loading spinner with its text, or a row of checkboxes, each with its \<open>value\<close> and
  whether it is ticked.
\<close>

datatype 'a container = Muted string | Spinner string | Checkboxes "('a \<times> bool) list"

text \<open>The values a container offers, and \<open>querySelectorAll('...:checked')\<close> on it.\<close>

fun offered :: "'a container \<Rightarrow> 'a list" where
  "offered (Checkboxes cs) = map fst cs"
| "offered _ = []"

fun checked :: "'a container \<Rightarrow> 'a list" where
  "checked (Checkboxes cs) = map fst (filter snd cs)"
| "checked _ = []"

text \<open>The calls that leave the script, in the order they are made.\<close>

datatype 'a effect =
    FetchSubjects
  | FetchTopics 'a
  | FetchSubtopics 'a 'a
  | Alert string
  | SetTimeout nat

text \<open>
  \<open>globals\<close> is the global scope as far as Set-valued variables go: the scope in which
  the free identifiers of the top-level functions are resolved. No statement of the
  script assigns to one of these variables, so a name bound there denotes one Set object
  for good, and an iterator over that object is modelled as an index together with the
  name.
\<close>

text \<open>
  The render functions build the markup of a checkbox by interpolating the identifier,
  unescaped, between the double quotes of \<open>value="..."\<close>, and assign the markup to
  \<open>innerHTML\<close>. What the checkbox then carries as its \<open>value\<close> is what the HTML parser
  of the browser reads back: \<open>attribute_value\<close>, a part of the page's environment. It
  is the identifier itself only for an identifier without a double quote or any other
  character that the parser treats specially.
\<close>

record 'a page =
  globals :: "string \<rightharpoonup> 'a setdata"
  attribute_value :: "'a \<Rightarrow> 'a"
  subjects_container :: "'a container"
  topics_container :: "'a container"
  subtopics_container :: "'a container"
  was_validated :: bool
  log :: "'a effect list"

definition emit :: "'a effect \<Rightarrow> 'a page \<Rightarrow> 'a page" where
  "emit e p = p\<lparr>log := log p @ [e]\<rparr>"

text \<open>\<open>showError(message)\<close> is \<open>alert(message)\<close>.\<close>

definition showError :: "string \<Rightarrow> 'a page \<Rightarrow> 'a page" where
  "showError msg p = emit (Alert msg) p"

subsection \<open>Rendering and clearing\<close>

definition renderSubjects :: "'a list \<Rightarrow> 'a page \<Rightarrow> 'a page" where
  "renderSubjects subjects p =
     (if subjects = [] then p\<lparr>subjects_container := Muted ''No subjects available''\<rparr>
      else p\<lparr>subjects_container :=
             Checkboxes (map (\<lambda>s. (attribute_value p s, False)) subjects)\<rparr>)"

definition renderTopics :: "'a list \<Rightarrow> 'a page \<Rightarrow> 'a page" where
  "renderTopics topics p =
     (if topics = []
      then p\<lparr>topics_container := Muted ''No topics available for selected subjects''\<rparr>
      else p\<lparr>topics_container :=
             Checkboxes (map (\<lambda>t. (attribute_value p t, False)) topics)\<rparr>)"

definition renderSubtopics :: "'a list \<Rightarrow> 'a page \<Rightarrow> 'a page" where
  "renderSubtopics subtopics p =
     (if subtopics = []
      then p\<lparr>subtopics_container := Muted ''No subtopics available for selected topics''\<rparr>
      else p\<lparr>subtopics_container :=
             Checkboxes (map (\<lambda>t. (attribute_value p t, False)) subtopics)\<rparr>)"

definition clearTopics :: "'a page \<Rightarrow> 'a page" where
  "clearTopics p =
     p\<lparr>topics_container := Muted ''Select subjects first to see available topics''\<rparr>"

definition clearSubtopics :: "'a page \<Rightarrow> 'a page" where
  "clearSubtopics p =
     p\<lparr>subtopics_container := Muted ''Select topics first to see available subtopics''\<rparr>"

subsection \<open>Loading the subjects\<close>

definition loadSubjects :: "'a page \<Rightarrow> 'a page" where
  "loadSubjects p = emit FetchSubjects p"

fun loadSubjects_resume :: "'a outcome \<Rightarrow> 'a page \<Rightarrow> 'a page" where
  "loadSubjects_resume (Success subjects) p = renderSubjects subjects p"
| "loadSubjects_resume (NonSuccess msg) p = showError (''Failed to load subjects: '' @ msg) p"
| "loadSubjects_resume (Rejected msg) p = showError (''Network error: '' @ msg) p"

subsection \<open>Loading the topics\<close>

text \<open>
  A call of the async function \<open>loadTopics\<close> that is suspended at its \<open>await\<close>: the
  position of the \<open>for ... of\<close> iterator over \<open>selectedSubjects\<close>, the subject whose
  request is awaited, and the local Set \<open>allTopics\<close>.
\<close>

record 'a topics_task =
  subject_iter :: nat
  awaited :: 'a
  allTopics :: "'a list"

text \<open>
  The head of the loop: either the iterator yields the next subject and its request is
  issued, or the loop is over and the sorted topics are rendered. A \<open>ReferenceError\<close>
  is thrown inside the \<open>try\<close> and lands in the \<open>catch\<close>.
\<close>

definition loadTopics_next ::
  "nat \<Rightarrow> ('a::linorder) list \<Rightarrow> 'a page \<Rightarrow> 'a page \<times> 'a topics_task option" where
  "loadTopics_next i acc p =
     (case globals p ''selectedSubjects'' of
        None \<Rightarrow>
          (showError (''Error loading topics: '' @ message (ReferenceError ''selectedSubjects'')) p,
           None)
      | Some d \<Rightarrow>
          (case set_iter_next d i of
             None \<Rightarrow> (renderTopics (sort acc) p, None)
           | Some (s, j) \<Rightarrow>
               (emit (FetchTopics s) p,
                Some \<lparr>subject_iter = j, awaited = s, allTopics = acc\<rparr>)))"

text \<open>The call itself runs up to the first \<open>await\<close>.\<close>

definition loadTopics :: "('a::linorder) page \<Rightarrow> 'a page \<times> 'a topics_task option" where
  "loadTopics p =
     loadTopics_next 0 [] (p\<lparr>topics_container := Spinner ''Loading topics...''\<rparr>)"

text \<open>The suspended call continues when its request has settled.\<close>

fun loadTopics_resume ::
  "('a::linorder) topics_task \<Rightarrow> 'a outcome \<Rightarrow> 'a page \<Rightarrow> 'a page \<times> 'a topics_task option" where
  "loadTopics_resume k (Success topics) p =
     loadTopics_next (subject_iter k) (fold local_add topics (allTopics k)) p"
| "loadTopics_resume k (NonSuccess msg) p =
     loadTopics_next (subject_iter k) (allTopics k) p"
| "loadTopics_resume k (Rejected msg) p =
     (showError (''Error loading topics: '' @ msg) p, None)"

subsection \<open>A change of the subject checkboxes\<close>

text \<open>
  A handler either returns, with the page it leaves and the call of the loader it
  started (if any), or throws, with the page as it was at the throw.
\<close>

definition handleSubjectChange ::
  "('a::linorder) page \<Rightarrow> (js_error \<times> 'a page) + ('a page \<times> 'a topics_task option)" where
  "handleSubjectChange p =
     (case globals p ''selectedSubjects'' of
        None \<Rightarrow> Inl (ReferenceError ''selectedSubjects'', p)
      | Some d \<Rightarrow>
          (let d' = fold set_add (checked (subjects_container p)) (set_clear d);
               p' = p\<lparr>globals := (globals p)(''selectedSubjects'' \<mapsto> d')\<rparr>
           in if set_size d' > 0 then Inr (loadTopics p')
              else Inr (clearSubtopics (clearTopics p'), None)))"

subsection \<open>Loading the subtopics\<close>

text \<open>
  Where a suspended call of \<open>loadSubtopics\<close> stands in its two nested loops: at the
  head of the outer loop over \<open>selectedSubjects\<close> with the outer iterator at an index,
  or inside the inner loop over \<open>selectedTopics\<close> for a subject, with both indices.
  The inner iterator is created anew for every subject.
\<close>

datatype 'a position = Outer nat | Inner nat 'a nat

record 'a subtopics_task =
  pos :: "'a position"
  awaited_subject :: 'a
  awaited_topic :: 'a
  allSubtopics :: "'a list"

definition scope_length :: "'a page \<Rightarrow> string \<Rightarrow> nat" where
  "scope_length p name = (case globals p name of None \<Rightarrow> 0 | Some d \<Rightarrow> length d)"

fun position_measure :: "nat \<Rightarrow> 'a position \<Rightarrow> nat" where
  "position_measure n (Outer i) = 2 * (n - i)"
| "position_measure n (Inner i s j) = 2 * (n - i) + 1"

lemma set_iter_next_bounds:
  assumes "set_iter_next d i = Some (x, j)"
  shows "i < j \<and> j \<le> length d"
proof -
  from assms obtain rest where r: "dropWhile (\<lambda>e. e = None) (drop i d) = Some x # rest"
    and j: "j = length d - length rest"
    by (auto simp: set_iter_next_def split: list.splits option.splits)
  have "length (dropWhile (\<lambda>e. e = None) (drop i d)) \<le> length (drop i d)"
    by (rule length_dropWhile_le)
  with r have "Suc (length rest) \<le> length d - i" by simp
  with j show ?thesis by arith
qed

function loadSubtopics_next ::
  "'a position \<Rightarrow> ('a::linorder) list \<Rightarrow> 'a page \<Rightarrow> 'a page \<times> 'a subtopics_task option" where
  "loadSubtopics_next (Outer i) acc p =
     (case globals p ''selectedSubjects'' of
        None \<Rightarrow>
          (showError (''Error loading subtopics: '' @ message (ReferenceError ''selectedSubjects'')) p,
           None)
      | Some ds \<Rightarrow>
          (case set_iter_next ds i of
             None \<Rightarrow> (renderSubtopics (sort acc) p, None)
           | Some (s, i') \<Rightarrow> loadSubtopics_next (Inner i' s 0) acc p))"
| "loadSubtopics_next (Inner i s j) acc p =
     (case globals p ''selectedTopics'' of
        None \<Rightarrow>
          (showError (''Error loading subtopics: '' @ message (ReferenceError ''selectedTopics'')) p,
           None)
      | Some dt \<Rightarrow>
          (case set_iter_next dt j of
             None \<Rightarrow> loadSubtopics_next (Outer i) acc p
           | Some (t, j') \<Rightarrow>
               (emit (FetchSubtopics s t) p,
                Some \<lparr>pos = Inner i s j', awaited_subject = s, awaited_topic = t,
                      allSubtopics = acc\<rparr>)))"
  by pat_completeness auto
termination
proof (relation "measure (\<lambda>(ps, acc, p). position_measure (scope_length p ''selectedSubjects'') ps)")
  show "wf (measure (\<lambda>(ps, acc, p). position_measure (scope_length p ''selectedSubjects'') ps))"
    by simp
next
  fix i :: nat and acc :: "'a list" and p :: "'a page" and ds x s i'
  assume "globals p ''selectedSubjects'' = Some ds" "set_iter_next ds i = Some x" "(s, i') = x"
  then have "i < i' \<and> i' \<le> length ds" "scope_length p ''selectedSubjects'' = length ds"
    using set_iter_next_bounds [of ds i s i'] by (auto simp: scope_length_def)
  then show "((Inner i' s 0, acc, p), (Outer i, acc, p))
      \<in> measure (\<lambda>(ps, acc, p). position_measure (scope_length p ''selectedSubjects'') ps)"
    by simp arith
next
  fix i :: nat and s :: 'a and j :: nat and acc :: "'a list" and p :: "'a page" and dt
  show "((Outer i, acc, p), (Inner i s j, acc, p))
      \<in> measure (\<lambda>(ps, acc, p). position_measure (scope_length p ''selectedSubjects'') ps)"
    by simp
qed

declare loadSubtopics_next.simps [simp del]

definition loadSubtopics :: "('a::linorder) page \<Rightarrow> 'a page \<times> 'a subtopics_task option" where
  "loadSubtopics p =
     loadSubtopics_next (Outer 0) [] (p\<lparr>subtopics_container := Spinner ''Loading subtopics...''\<rparr>)"

fun loadSubtopics_resume ::
  "('a::linorder) subtopics_task \<Rightarrow> 'a outcome \<Rightarrow> 'a page \<Rightarrow> 'a page \<times> 'a subtopics_task option" where
  "loadSubtopics_resume k (Success subtopics) p =
     loadSubtopics_next (pos k) (fold local_add subtopics (allSubtopics k)) p"
| "loadSubtopics_resume k (NonSuccess msg) p =
     loadSubtopics_next (pos k) (allSubtopics k) p"
| "loadSubtopics_resume k (Rejected msg) p =
     (showError (''Error loading subtopics: '' @ msg) p, None)"

subsection \<open>A change of the topic checkboxes, and the form reset\<close>

definition handleTopicChange ::
  "('a::linorder) page \<Rightarrow> (js_error \<times> 'a page) + ('a page \<times> 'a subtopics_task option)" where
  "handleTopicChange p =
     (case globals p ''selectedTopics'' of
        None \<Rightarrow> Inl (ReferenceError ''selectedTopics'', p)
      | Some d \<Rightarrow>
          (let d' = fold set_add (checked (topics_container p)) (set_clear d);
               p' = p\<lparr>globals := (globals p)(''selectedTopics'' \<mapsto> d')\<rparr>
           in if set_size d' > 0 then Inr (loadSubtopics p')
              else Inr (clearSubtopics p', None)))"

text \<open>
  \<open>handleFormReset\<close> only registers a timer; the arrow function it passes runs 10 ms
  later as a task of its own.
\<close>

definition handleFormReset :: "'a page \<Rightarrow> (js_error \<times> 'a page) + 'a page" where
  "handleFormReset p = Inr (emit (SetTimeout 10) p)"

definition handleFormReset_timeout :: "'a page \<Rightarrow> (js_error \<times> 'a page) + 'a page" where
  "handleFormReset_timeout p =
     (case globals p ''selectedSubjects'' of
        None \<Rightarrow> Inl (ReferenceError ''selectedSubjects'', p)
      | Some ds \<Rightarrow>
          (let p1 = p\<lparr>globals := (globals p)(''selectedSubjects'' \<mapsto> set_clear ds)\<rparr>
           in case globals p1 ''selectedTopics'' of
                None \<Rightarrow> Inl (ReferenceError ''selectedTopics'', p1)
              | Some dt \<Rightarrow>
                  (let p2 = p1\<lparr>globals := (globals p1)(''selectedTopics'' \<mapsto> set_clear dt)\<rparr>
                   in case globals p2 ''selectedSubtopics'' of
                        None \<Rightarrow> Inl (ReferenceError ''selectedSubtopics'', p2)
                      | Some du \<Rightarrow>
                          (let p3 = p2\<lparr>globals := (globals p2)(''selectedSubtopics'' \<mapsto> set_clear du)\<rparr>
                           in Inr ((clearSubtopics (clearTopics p3))\<lparr>was_validated := False\<rparr>)))))"

subsection \<open>The scopes of the script\<close>

text \<open>
  The top level of the script declares functions only, so the global scope binds no
  Set-valued variable. The \<open>DOMContentLoaded\<close> callback calls \<open>loadSubjects\<close>, registers
  the form's listeners and then declares its variables with \<open>let\<close>: they live in the
  scope of that one call, returned here beside the page. No function is created inside
  the callback, so nothing holds on to that scope once the callback has returned.
\<close>

definition script_scope :: "string \<rightharpoonup> 'a setdata" where
  "script_scope = Map.empty"

definition on_DOMContentLoaded :: "'a page \<Rightarrow> 'a page \<times> (string \<rightharpoonup> 'a setdata)" where
  "on_DOMContentLoaded p =
     (loadSubjects p,
      [''selectedSubjects'' \<mapsto> [], ''selectedTopics'' \<mapsto> [], ''selectedSubtopics'' \<mapsto> []])"

subsection \<open>A refresh that runs undisturbed\<close>

text \<open>
  A backend that answers the request for a parent with a fixed outcome, and a refresh
  whose requests are answered one after the other with no other handler running in
  between: the suspended call is resumed with the outcome of the request it awaits until
  it has finished.
\<close>

lemma loadTopics_next_progress:
  assumes "loadTopics_next i acc p = (p', Some k')"
  shows "globals p' = globals p \<and> i < subject_iter k'
       \<and> subject_iter k' \<le> scope_length p ''selectedSubjects''"
proof (cases "globals p ''selectedSubjects''")
  case None
  with assms show ?thesis by (simp add: loadTopics_next_def)
next
  case (Some d)
  show ?thesis
  proof (cases "set_iter_next d i")
    case None
    with Some assms show ?thesis by (simp add: loadTopics_next_def)
  next
    case (Some sj)
    obtain s j where sj: "sj = (s, j)" by (cases sj)
    with Some have "i < j \<and> j \<le> length d" by (simp add: set_iter_next_bounds)
    with assms Some sj \<open>globals p ''selectedSubjects'' = Some d\<close> show ?thesis
      by (auto simp: loadTopics_next_def emit_def scope_length_def)
  qed
qed

lemma loadTopics_resume_progress:
  assumes "loadTopics_resume k r p = (p', Some k')"
  shows "globals p' = globals p \<and> subject_iter k < subject_iter k'
       \<and> subject_iter k' \<le> scope_length p ''selectedSubjects''"
  using assms by (cases r) (auto dest: loadTopics_next_progress)

function run_topics ::
  "(('a::linorder) \<Rightarrow> 'a outcome) \<Rightarrow> 'a page \<times> 'a topics_task option \<Rightarrow> 'a page" where
  "run_topics q (p, None) = p"
| "run_topics q (p, Some k) = run_topics q (loadTopics_resume k (q (awaited k)) p)"
  by pat_completeness auto
termination
proof (relation "measure (\<lambda>(q, p, t). case t of None \<Rightarrow> 0
         | Some k \<Rightarrow> Suc (scope_length p ''selectedSubjects'' - subject_iter k))")
  fix q :: "'a \<Rightarrow> 'a outcome" and p :: "'a page" and k :: "'a topics_task"
  obtain p' t' where r: "loadTopics_resume k (q (awaited k)) p = (p', t')"
    by (cases "loadTopics_resume k (q (awaited k)) p")
  show "((q, loadTopics_resume k (q (awaited k)) p), (q, p, Some k))
      \<in> measure (\<lambda>(q, p, t). case t of None \<Rightarrow> 0
         | Some k \<Rightarrow> Suc (scope_length p ''selectedSubjects'' - subject_iter k))"
  proof (cases t')
    case None
    with r show ?thesis by simp
  next
    case (Some k')
    with r have "globals p' = globals p \<and> subject_iter k < subject_iter k'
       \<and> subject_iter k' \<le> scope_length p ''selectedSubjects''"
      by (simp add: loadTopics_resume_progress)
    with r Some show ?thesis by (simp add: scope_length_def) arith
  qed
qed simp

text \<open>
  The same refresh read as a plain loop over the subjects that the iterator still has
  to visit.
\<close>

fun topics_seq ::
  "(('a::linorder) \<Rightarrow> 'a outcome) \<Rightarrow> 'a list \<Rightarrow> 'a list \<Rightarrow> 'a page \<Rightarrow> 'a page" where
  "topics_seq q [] acc p = renderTopics (sort acc) p"
| "topics_seq q (s # ss) acc p =
     (case q s of
        Success topics \<Rightarrow> topics_seq q ss (fold local_add topics acc) (emit (FetchTopics s) p)
      | NonSuccess msg \<Rightarrow> topics_seq q ss acc (emit (FetchTopics s) p)
      | Rejected msg \<Rightarrow> showError (''Error loading topics: '' @ msg) (emit (FetchTopics s) p))"

text \<open>
  The page a handler leaves, with the refresh it started (if any) run undisturbed.
\<close>

fun settle ::
  "(('a::linorder) \<Rightarrow> 'a outcome)
   \<Rightarrow> (js_error \<times> 'a page) + ('a page \<times> 'a topics_task option) \<Rightarrow> 'a page" where
  "settle q (Inl (e, p)) = p"
| "settle q (Inr t) = run_topics q t"

subsection \<open>The page in the event loop\<close>

text \<open>
  What the browser does with the page once the script is loaded: it delivers the events
  that the script has listeners, pending requests or timers for, one at a time. A click
  on a checkbox flips its tick and then runs the change listener that \<open>renderSubjects\<close>
  or \<open>renderTopics\<close> attached; the subtopic checkboxes have no listener.
\<close>

fun clickable :: "nat \<Rightarrow> 'a container \<Rightarrow> bool" where
  "clickable i (Checkboxes cs) = (i < length cs)"
| "clickable i w = False"

fun toggle_at :: "nat \<Rightarrow> 'a container \<Rightarrow> 'a container" where
  "toggle_at i (Checkboxes cs) =
     (if i < length cs then Checkboxes (cs[i := (fst (cs ! i), \<not> snd (cs ! i))])
      else Checkboxes cs)"
| "toggle_at i w = w"

fun untick_all :: "'a container \<Rightarrow> 'a container" where
  "untick_all (Checkboxes cs) = Checkboxes (map (\<lambda>c. (fst c, False)) cs)"
| "untick_all w = w"

text \<open>
  Besides the page: whether the request of \<open>loadSubjects\<close> is outstanding, the calls of
  the two loaders that are suspended at a request, the number of timers registered by
  \<open>handleFormReset\<close> that have not fired, and the errors that a listener or a timer
  callback threw and nothing caught.
\<close>

record 'a config =
  page :: "'a page"
  subjects_pending :: bool
  topic_tasks :: "'a topics_task list"
  subtopic_tasks :: "'a subtopics_task list"
  timers :: nat
  uncaught :: "js_error list"

text \<open>
  The responses carry whatever outcome the backend and the network produce. The reset of
  the form runs the listener \<open>handleFormReset\<close>; whether the browser's own reset of the
  form's controls reaches the checkboxes depends on the document, so it is an event of
  its own.
\<close>

datatype 'a event =
    SubjectsResponse "'a outcome"
  | ClickSubject nat
  | ClickTopic nat
  | ClickSubtopic nat
  | TopicsResponse nat "'a outcome"
  | SubtopicsResponse nat "'a outcome"
  | FormReset
  | ControlsReset
  | TimerFires

fun task_list :: "'k option \<Rightarrow> 'k list" where
  "task_list None = []"
| "task_list (Some k) = [k]"

fun fire :: "('a::linorder) event \<Rightarrow> 'a config \<Rightarrow> 'a config" where
  "fire (SubjectsResponse r) c =
     (if subjects_pending c
      then c\<lparr>page := loadSubjects_resume r (page c), subjects_pending := False\<rparr>
      else c)"
| "fire (ClickSubject i) c =
     (if clickable i (subjects_container (page c))
      then (case handleSubjectChange
                   ((page c)\<lparr>subjects_container := toggle_at i (subjects_container (page c))\<rparr>) of
              Inl (e, p') \<Rightarrow> c\<lparr>page := p', uncaught := uncaught c @ [e]\<rparr>
            | Inr (p', t) \<Rightarrow> c\<lparr>page := p', topic_tasks := topic_tasks c @ task_list t\<rparr>)
      else c)"
| "fire (ClickTopic i) c =
     (if clickable i (topics_container (page c))
      then (case handleTopicChange
                   ((page c)\<lparr>topics_container := toggle_at i (topics_container (page c))\<rparr>) of
              Inl (e, p') \<Rightarrow> c\<lparr>page := p', uncaught := uncaught c @ [e]\<rparr>
            | Inr (p', t) \<Rightarrow> c\<lparr>page := p', subtopic_tasks := subtopic_tasks c @ task_list t\<rparr>)
      else c)"
| "fire (ClickSubtopic i) c =
     c\<lparr>page := (page c)\<lparr>subtopics_container := toggle_at i (subtopics_container (page c))\<rparr>\<rparr>"
| "fire (TopicsResponse n r) c =
     (if n < length (topic_tasks c)
      then (case loadTopics_resume (topic_tasks c ! n) r (page c) of
              (p', t) \<Rightarrow>
                c\<lparr>page := p',
                  topic_tasks := take n (topic_tasks c) @ drop (Suc n) (topic_tasks c) @ task_list t\<rparr>)
      else c)"
| "fire (SubtopicsResponse n r) c =
     (if n < length (subtopic_tasks c)
      then (case loadSubtopics_resume (subtopic_tasks c ! n) r (page c) of
              (p', t) \<Rightarrow>
                c\<lparr>page := p',
                  subtopic_tasks :=
                    take n (subtopic_tasks c) @ drop (Suc n) (subtopic_tasks c) @ task_list t\<rparr>)
      else c)"
| "fire FormReset c =
     (case handleFormReset (page c) of
        Inl (e, p') \<Rightarrow> c\<lparr>page := p', uncaught := uncaught c @ [e]\<rparr>
      | Inr p' \<Rightarrow> c\<lparr>page := p', timers := Suc (timers c)\<rparr>)"
| "fire ControlsReset c =
     c\<lparr>page := (page c)
         \<lparr>subjects_container := untick_all (subjects_container (page c)),
          topics_container := untick_all (topics_container (page c)),
          subtopics_container := untick_all (subtopics_container (page c))\<rparr>\<rparr>"
| "fire TimerFires c =
     (if 0 < timers c
      then (case handleFormReset_timeout (page c) of
              Inl (e, p') \<Rightarrow> c\<lparr>page := p', timers := timers c - 1, uncaught := uncaught c @ [e]\<rparr>
            | Inr p' \<Rightarrow> c\<lparr>page := p', timers := timers c - 1\<rparr>)
      else c)"

fun play :: "('a::linorder) event list \<Rightarrow> 'a config \<Rightarrow> 'a config" where
  "play [] c = c"
| "play (e # es) c = play es (fire e c)"

text \<open>
  The script is evaluated on the static document \<open>p0\<close> and the \<open>DOMContentLoaded\<close>
  callback has run: the state from which the events start.
\<close>

definition boot :: "'a page \<Rightarrow> 'a config" where
  "boot p0 =
     \<lparr>page = fst (on_DOMContentLoaded p0), subjects_pending = True, topic_tasks = [],
      subtopic_tasks = [], timers = 0, uncaught = []\<rparr>"

subsection \<open>The taxonomy and the document of the scenarios\<close>

text \<open>
  Two subjects with their topics, named by plain words, ordered as \<open>sort()\<close> orders the
  names. The parser reads such a name back as it is.
\<close>

datatype category = Algebra | Geometry | Math | Mechanics | Physics

fun name :: "category \<Rightarrow> string" where
  "name Algebra = ''Algebra''"
| "name Geometry = ''Geometry''"
| "name Math = ''Math''"
| "name Mechanics = ''Mechanics''"
| "name Physics = ''Physics''"

lemma name_inject: "name a = name b \<longleftrightarrow> a = b"
  by (cases a; cases b) simp_all

instantiation category :: linorder
begin

definition less_eq_category :: "category \<Rightarrow> category \<Rightarrow> bool" where
  "less_eq_category a b \<longleftrightarrow> name a \<le> name b"

definition less_category :: "category \<Rightarrow> category \<Rightarrow> bool" where
  "less_category a b \<longleftrightarrow> name a < name b"

instance
proof
  fix a b c :: category
  show "a < b \<longleftrightarrow> a \<le> b \<and> \<not> b \<le> a"
    unfolding less_eq_category_def less_category_def by (rule less_le_not_le)
  show "a \<le> a"
    unfolding less_eq_category_def by (rule order_refl)
  show "a \<le> b \<Longrightarrow> b \<le> c \<Longrightarrow> a \<le> c"
    unfolding less_eq_category_def by (rule order_trans)
  show "a \<le> b \<Longrightarrow> b \<le> a \<Longrightarrow> a = b"
    unfolding less_eq_category_def name_inject [symmetric] by (rule antisym)
  show "a \<le> b \<or> b \<le> a"
    unfolding less_eq_category_def by (rule linear)
qed

end

definition scenario_topics :: "category \<Rightarrow> category list" where
  "scenario_topics s =
     (if s = Math then [Algebra, Geometry]
      else if s = Physics then [Mechanics, Algebra]
      else [])"

definition scenario_backend :: "category \<Rightarrow> category outcome" where
  "scenario_backend s = Success (scenario_topics s)"

text \<open>
  The document before the script has touched it, with its three containers still empty.
\<close>

definition blank_page :: "category page" where
  "blank_page =
     \<lparr>globals = script_scope,
      attribute_value = (\<lambda>c. c),
      subjects_container = Muted [],
      topics_container = Muted [],
      subtopics_container = Muted [],
      was_validated = False,
      log = []\<rparr>"

definition loaded_page :: "category page" where
  "loaded_page = fst (on_DOMContentLoaded blank_page)"

text \<open>The subjects Math and Physics arrive and are rendered.\<close>

definition subjects_arrive :: "category event list" where
  "subjects_arrive = [SubjectsResponse (Success [Math, Physics])]"

section \<open>The markdown shortcuts of the question form\<close>

text \<open>
  The textarea \<open>full_question_text\<close>: its value as a list of UTF-16 code units (of any
  type \<open>'c\<close>), the selection as two offsets into it, and whether it has the focus.
  \<open>updateMarkdownPreview\<close> reads the value and writes the preview element only, which
  is not part of this state.
\<close>

record 'c textarea =
  text_value :: "'c list"
  selectionStart :: nat
  selectionEnd :: nat
  focused :: bool

text \<open>
  \<open>String.prototype.substring(start, end)\<close> on offsets that are natural numbers: both
  are capped at the length, and swapped when the first is the larger.
\<close>

definition substring :: "'c list \<Rightarrow> nat \<Rightarrow> nat \<Rightarrow> 'c list" where
  "substring v a b =
     (let a' = min a (length v); b' = min b (length v);
          from = min a' b'; to = max a' b'
      in take (to - from) (drop from v))"

text \<open>\<open>substring(start)\<close> with one argument runs to the end of the string.\<close>

definition substring_from :: "'c list \<Rightarrow> nat \<Rightarrow> 'c list" where
  "substring_from v a = substring v a (length v)"

text \<open>Assigning \<open>value\<close> puts the cursor behind the new text.\<close>

definition set_value :: "'c list \<Rightarrow> 'c textarea \<Rightarrow> 'c textarea" where
  "set_value v t = t\<lparr>text_value := v, selectionStart := length v, selectionEnd := length v\<rparr>"

text \<open>
  \<open>setSelectionRange(start, end)\<close>: offsets beyond the value point at its end, and an
  end that is not behind the start collapses the selection at the end offset.
\<close>

definition setSelectionRange :: "nat \<Rightarrow> nat \<Rightarrow> 'c textarea \<Rightarrow> 'c textarea" where
  "setSelectionRange a b t =
     (let n = length (text_value t); a' = min a n; b' = min b n
      in if b' \<le> a' then t\<lparr>selectionStart := b', selectionEnd := b'\<rparr>
         else t\<lparr>selectionStart := a', selectionEnd := b'\<rparr>)"

definition insertMarkdownFormat :: "'c list \<Rightarrow> 'c list \<Rightarrow> 'c textarea \<Rightarrow> 'c textarea" where
  "insertMarkdownFormat before after t =
     (let start = selectionStart t;
          end' = selectionEnd t;
          selectedText = substring (text_value t) start end';
          replacement = before @ selectedText @ after;
          t1 = set_value (substring (text_value t) 0 start @ replacement
                          @ substring_from (text_value t) end') t;
          newCursorPos = start + length before + length selectedText + length after;
          t2 = setSelectionRange newCursorPos newCursorPos t1
      in t2\<lparr>focused := True\<rparr>)"

section \<open>Properties of the cascading filter\<close>

subsection \<open>The undisturbed refresh as a loop\<close>

lemma set_values_Nil [simp]: "set_values [] = []"
  by (simp add: set_values_def map_filter_simps)

lemma set_values_Cons [simp]:
  "set_values (e # d) = (case e of None \<Rightarrow> set_values d | Some x \<Rightarrow> x # set_values d)"
  by (simp add: set_values_def map_filter_simps split: option.splits)

lemma set_values_append [simp]: "set_values (d @ d') = set_values d @ set_values d'"
  by (induction d) (auto split: option.splits)

lemma set_values_dropWhile:
  "set_values (dropWhile (\<lambda>e. e = None) d) = set_values d"
  by (induction d) auto

lemma set_iter_next_None:
  assumes "set_iter_next d i = None"
  shows "set_values (drop i d) = []"
proof -
  have "dropWhile (\<lambda>e. e = None) (drop i d) = [] \<or>
        (\<exists>rest. dropWhile (\<lambda>e. e = None) (drop i d) = None # rest)"
    using assms by (auto simp: set_iter_next_def split: list.splits option.splits)
  moreover have "dropWhile (\<lambda>e. e = None) (drop i d) \<noteq> None # rest" for rest
  proof
    assume a: "dropWhile (\<lambda>e. e = None) (drop i d) = None # rest"
    then have "hd (dropWhile (\<lambda>e. e = None) (drop i d)) \<noteq> None"
      using hd_dropWhile [of "\<lambda>e. e = None" "drop i d"] by simp
    with a show False by simp
  qed
  ultimately have "dropWhile (\<lambda>e. e = None) (drop i d) = []" by blast
  then have "set_values (dropWhile (\<lambda>e. e = None) (drop i d)) = []"
    by (simp only: set_values_Nil)
  then show ?thesis by (simp only: set_values_dropWhile)
qed

lemma set_iter_next_Some:
  assumes "set_iter_next d i = Some (x, j)"
  shows "set_values (drop i d) = x # set_values (drop j d)"
proof -
  from assms obtain rest where r: "dropWhile (\<lambda>e. e = None) (drop i d) = Some x # rest"
    and j: "j = length d - length rest"
    by (auto simp: set_iter_next_def split: list.splits option.splits)
  have "drop i d = takeWhile (\<lambda>e. e = None) (drop i d) @ Some x # rest"
    using takeWhile_dropWhile_id [of "\<lambda>e. e = None" "drop i d"] r by simp
  then have "d = (take i d @ takeWhile (\<lambda>e. e = None) (drop i d) @ [Some x]) @ rest"
    using append_take_drop_id [of i d] by simp
  then obtain front where d: "d = front @ rest" by blast
  have "drop (length d - length rest) d = rest"
    by (subst (1 2) d) simp
  moreover have "set_values (drop i d) = x # set_values rest"
    using set_values_dropWhile [of "drop i d"] r by simp
  ultimately show ?thesis using j by simp
qed

lemma run_topics_next:
  assumes "globals p ''selectedSubjects'' = Some d"
  shows "run_topics q (loadTopics_next i acc p) = topics_seq q (set_values (drop i d)) acc p"
  using assms
proof (induction "set_values (drop i d)" arbitrary: i acc p)
  case Nil
  have "set_iter_next d i = None"
  proof (cases "set_iter_next d i")
    case (Some sj)
    then show ?thesis using Nil.hyps set_iter_next_Some [of d i "fst sj" "snd sj"] by simp
  qed simp
  with Nil show ?case by (simp add: loadTopics_next_def)
next
  case (Cons s ss)
  obtain s' j where n: "set_iter_next d i = Some (s', j)"
    using Cons.hyps(2) set_iter_next_None [of d i] by (cases "set_iter_next d i") auto
  with Cons.hyps(2) have s: "s' = s" "ss = set_values (drop j d)"
    using set_iter_next_Some [of d i s' j] by simp_all
  have g: "globals (emit (FetchTopics s) p) ''selectedSubjects'' = Some d"
    using Cons.prems by (simp add: emit_def)
  show ?case
  proof (cases "q s")
    case (Success topics)
    with n s Cons.prems Cons.hyps(1) [OF s(2) g] Cons.hyps(2) [symmetric] show ?thesis
      by (simp add: loadTopics_next_def)
  next
    case (NonSuccess msg)
    with n s Cons.prems Cons.hyps(1) [OF s(2) g] Cons.hyps(2) [symmetric] show ?thesis
      by (simp add: loadTopics_next_def)
  next
    case (Rejected msg)
    with n s Cons.prems Cons.hyps(2) [symmetric] show ?thesis
      by (simp add: loadTopics_next_def)
  qed
qed

subsection \<open>Facts about the Sets and the change handler\<close>

lemma set_values_clear [simp]: "set_values (set_clear d) = []"
  by (induction d) (simp_all add: set_clear_def)

lemma Some_in_setdata: "Some x \<in> set d \<longleftrightarrow> x \<in> set (set_values d)"
  by (induction d) (auto split: option.splits)

lemma set_values_add: "set_values (set_add x d) = local_add x (set_values d)"
  by (simp add: set_add_def local_add_def Some_in_setdata)

lemma set_values_fold_add:
  "set_values (fold set_add xs d) = fold local_add xs (set_values d)"
  by (induction xs arbitrary: d) (simp_all add: set_values_add)

lemma set_fold_local_add: "set (fold local_add xs acc) = set acc \<union> set xs"
  by (induction xs arbitrary: acc) (auto simp: local_add_def)

lemma fold_local_add_eq_Nil: "fold local_add xs acc = [] \<longleftrightarrow> xs = [] \<and> acc = []"
proof -
  have "set (fold local_add xs acc) = {} \<longleftrightarrow> set xs = {} \<and> set acc = {}"
    by (auto simp: set_fold_local_add)
  then show ?thesis by simp
qed

lemma handleSubjectChange_selected:
  assumes "globals p ''selectedSubjects'' = Some d"
  shows "handleSubjectChange p =
     (let p' = p\<lparr>globals := (globals p)(''selectedSubjects'' \<mapsto>
                  fold set_add (checked (subjects_container p)) (set_clear d))\<rparr>
      in if checked (subjects_container p) \<noteq> [] then Inr (loadTopics p')
         else Inr (clearSubtopics (clearTopics p'), None))"
  using assms
  by (simp add: handleSubjectChange_def Let_def set_size_def set_values_fold_add
      fold_local_add_eq_Nil)

lemma run_topics_loadTopics:
  assumes "globals p ''selectedSubjects'' = Some d"
  shows "run_topics q (loadTopics p) =
     topics_seq q (set_values d) [] (p\<lparr>topics_container := Spinner ''Loading topics...''\<rparr>)"
  using assms run_topics_next [of "p\<lparr>topics_container := Spinner ''Loading topics...''\<rparr>" d q 0 "[]"]
  by (simp add: loadTopics_def)

lemma topics_seq_frame:
  "globals (topics_seq q ss acc p) = globals p
   \<and> attribute_value (topics_seq q ss acc p) = attribute_value p
   \<and> subjects_container (topics_seq q ss acc p) = subjects_container p
   \<and> subtopics_container (topics_seq q ss acc p) = subtopics_container p"
  by (induction ss arbitrary: acc p)
    (auto simp: renderTopics_def showError_def emit_def split: outcome.splits)

lemma topics_seq_container_cong:
  "topics_container p1 = topics_container p2 \<Longrightarrow> attribute_value p1 = attribute_value p2 \<Longrightarrow>
   topics_container (topics_seq q ss acc p1) = topics_container (topics_seq q ss acc p2)"
proof (induction ss arbitrary: acc p1 p2)
  case Nil
  then show ?case by (simp add: renderTopics_def)
next
  case (Cons s ss)
  have e: "topics_container (emit (FetchTopics s) p1) = topics_container (emit (FetchTopics s) p2)"
    "attribute_value (emit (FetchTopics s) p1) = attribute_value (emit (FetchTopics s) p2)"
    using Cons.prems by (simp_all add: emit_def)
  show ?case
    using Cons.IH [OF e] Cons.prems
    by (cases "q s") (simp_all add: showError_def emit_def)
qed

subsection \<open>What the shipped script can reach\<close>

text \<open>
  With the global scope that the script leaves, no event binds a Set, starts a loader or
  changes what the topic and subtopic containers offer.
\<close>

lemma offered_toggle_at [simp]: "offered (toggle_at i w) = offered w"
proof (cases w)
  case (Checkboxes cs)
  have "i < length cs \<Longrightarrow> (map fst cs)[i := fst (cs ! i)] = map fst cs"
    by (metis list_update_id nth_map)
  with Checkboxes show ?thesis by (simp add: map_update)
qed simp_all

lemma offered_untick_all [simp]: "offered (untick_all w) = offered w"
  by (cases w) (simp_all add: comp_def)

definition unbound :: "'a list \<Rightarrow> 'a list \<Rightarrow> 'a config \<Rightarrow> bool" where
  "unbound A B c \<longleftrightarrow>
     globals (page c) = Map.empty \<and> topic_tasks c = [] \<and> subtopic_tasks c = []
     \<and> offered (topics_container (page c)) = A
     \<and> offered (subtopics_container (page c)) = B"

lemma unbound_boot:
  "globals p0 = script_scope \<Longrightarrow>
   unbound (offered (topics_container p0)) (offered (subtopics_container p0)) (boot p0)"
  by (simp add: unbound_def boot_def on_DOMContentLoaded_def loadSubjects_def emit_def
      script_scope_def)

lemma unbound_fire: "unbound A B c \<Longrightarrow> unbound A B (fire e c)"
proof (cases e)
  case (SubjectsResponse r)
  then show "unbound A B c \<Longrightarrow> unbound A B (fire e c)"
    by (cases r) (simp_all add: unbound_def renderSubjects_def showError_def emit_def)
qed (simp_all add: unbound_def handleSubjectChange_def handleTopicChange_def
      handleFormReset_def handleFormReset_timeout_def emit_def)

lemma unbound_play: "unbound A B c \<Longrightarrow> unbound A B (play es c)"
  by (induction es arbitrary: c) (simp_all add: unbound_fire)

lemma unbound_reached:
  "globals p0 = script_scope \<Longrightarrow>
   unbound (offered (topics_container p0)) (offered (subtopics_container p0)) (play es (boot p0))"
  by (rule unbound_play) (rule unbound_boot)

lemma fire_ClickSubject_unbound:
  assumes "globals (page c) = Map.empty" and "clickable i (subjects_container (page c))"
  shows "fire (ClickSubject i) c =
     c\<lparr>page := (page c)\<lparr>subjects_container := toggle_at i (subjects_container (page c))\<rparr>,
       uncaught := uncaught c @ [ReferenceError ''selectedSubjects'']\<rparr>"
  using assms by (simp add: handleSubjectChange_def)

subsection \<open>The scope of the selection Sets\<close>

text \<open>
  C2, as amended. On every page whose global scope is the one that the script and its
  \<open>DOMContentLoaded\<close> callback leave behind, \<open>handleSubjectChange\<close> and
  \<open>handleTopicChange\<close> throw a \<open>ReferenceError\<close> (for \<open>selectedSubjects\<close> and for
  \<open>selectedTopics\<close>) with the page exactly as it was. \<open>handleFormReset\<close> itself returns
  normally, having done nothing but register its 10 ms timer; it is the timer's callback
  that throws the \<open>ReferenceError\<close> for \<open>selectedSubjects\<close>, again with the page as it
  was. So no handler of a checkbox change gets as far as starting a refresh.
\<close>

theorem handlers_fail_on_unbound_sets:
  assumes "globals p0 = script_scope"
    and "globals p = globals (fst (on_DOMContentLoaded p0))"
  shows "handleSubjectChange p = Inl (ReferenceError ''selectedSubjects'', p)
     \<and> handleTopicChange p = Inl (ReferenceError ''selectedTopics'', p)
     \<and> handleFormReset p = Inr (emit (SetTimeout 10) p)
     \<and> handleFormReset_timeout (emit (SetTimeout 10) p)
         = Inl (ReferenceError ''selectedSubjects'', emit (SetTimeout 10) p)"
proof -
  have "globals p = Map.empty"
    using assms by (simp add: on_DOMContentLoaded_def loadSubjects_def emit_def script_scope_def)
  then show ?thesis
    by (simp add: handleSubjectChange_def handleTopicChange_def handleFormReset_def
        handleFormReset_timeout_def emit_def)
qed

theorem handlers_fail_on_unbound_sets_witness:
  "handleSubjectChange loaded_page = Inl (ReferenceError ''selectedSubjects'', loaded_page)
   \<and> handleTopicChange loaded_page = Inl (ReferenceError ''selectedTopics'', loaded_page)
   \<and> handleFormReset loaded_page = Inr (emit (SetTimeout 10) loaded_page)
   \<and> handleFormReset_timeout (emit (SetTimeout 10) loaded_page)
       = Inl (ReferenceError ''selectedSubjects'', emit (SetTimeout 10) loaded_page)"
  using handlers_fail_on_unbound_sets [of blank_page loaded_page]
  by (simp add: loaded_page_def blank_page_def)

theorem handleFormReset_returns_counterexample:
  "\<not> (\<exists>e p'. handleFormReset loaded_page = Inl (e, p'))
   \<and> handleFormReset loaded_page \<noteq> Inr loaded_page"
  by (simp add: handleFormReset_def emit_def loaded_page_def blank_page_def
      on_DOMContentLoaded_def loadSubjects_def)

subsection \<open>What a subject change publishes\<close>

text \<open>
  C1, evaluated where the code departs from it. The subjects Math and Physics have
  arrived and the user ticks both. Each of the two change events ends in an uncaught
  \<open>ReferenceError\<close> for \<open>selectedSubjects\<close>; no loader is started, the log holds the
  request for the subjects and none for topics, and the topic container offers nothing,
  where the sorted union of the topics of the two subjects is Algebra, Geometry,
  Mechanics.
\<close>

theorem ticked_subjects_publish_no_topics:
  "(let c = play (subjects_arrive @ [ClickSubject 0, ClickSubject 1]) (boot blank_page)
    in checked (subjects_container (page c)) = [Math, Physics]
       \<and> uncaught c = [ReferenceError ''selectedSubjects'', ReferenceError ''selectedSubjects'']
       \<and> topic_tasks c = []
       \<and> log (page c) = [FetchSubjects]
       \<and> offered (topics_container (page c)) = []
       \<and> sorted_list_of_set (\<Union>s\<in>{Math, Physics}. set (scenario_topics s))
           = [Algebra, Geometry, Mechanics])"
proof -
  have "sorted_list_of_set (\<Union>s\<in>{Math, Physics}. set (scenario_topics s))
      = [Algebra, Geometry, Mechanics]"
    by code_simp
  then show ?thesis
    by (simp add: subjects_arrive_def boot_def blank_page_def on_DOMContentLoaded_def
        loadSubjects_def emit_def renderSubjects_def handleSubjectChange_def script_scope_def
        Let_def)
qed

subsection \<open>The requests of a refresh\<close>

text \<open>
  C7, evaluated where the code departs from it. The subjects have arrived and the user
  ticks Math. One subject is selected, but the change event ends in the uncaught
  \<open>ReferenceError\<close>: the log holds no request for the topics of Math, no call of
  \<open>loadTopics\<close> is waiting for one, and the topic container is as the document had it.
\<close>

theorem ticked_subject_issues_no_request:
  "(let c = play (subjects_arrive @ [ClickSubject 0]) (boot blank_page)
    in checked (subjects_container (page c)) = [Math]
       \<and> uncaught c = [ReferenceError ''selectedSubjects'']
       \<and> log (page c) = [FetchSubjects]
       \<and> topic_tasks c = [] \<and> subtopic_tasks c = []
       \<and> topics_container (page c) = topics_container blank_page)"
  by (simp add: subjects_arrive_def boot_def blank_page_def on_DOMContentLoaded_def
      loadSubjects_def emit_def renderSubjects_def handleSubjectChange_def script_scope_def
      Let_def)

subsection \<open>A dependent level after its parent changed\<close>

text \<open>
  C9, evaluated where the code departs from it. The subjects have arrived; the user
  ticks Math, unticks it again and ticks Physics. After these three changes of the
  parent selection the topic container and the subtopic container are still what the
  document had before the script ran: nothing was discarded and nothing rebuilt, and no
  Set of selected topics or subjects exists in the scope of the handlers.
\<close>

theorem subject_changes_rebuild_nothing:
  "(let c = play (subjects_arrive @ [ClickSubject 0, ClickSubject 0, ClickSubject 1])
              (boot blank_page)
    in checked (subjects_container (page c)) = [Physics]
       \<and> length (uncaught c) = 3
       \<and> topics_container (page c) = topics_container blank_page
       \<and> subtopics_container (page c) = subtopics_container blank_page
       \<and> globals (page c) ''selectedSubjects'' = None
       \<and> globals (page c) ''selectedTopics'' = None)"
  by (simp add: subjects_arrive_def boot_def blank_page_def on_DOMContentLoaded_def
      loadSubjects_def emit_def renderSubjects_def handleSubjectChange_def script_scope_def
      Let_def)

subsection \<open>An empty subject selection\<close>



subsection \<open>A refresh that fails\<close>



subsection \<open>The same selection twice\<close>

text \<open>
  C8. On any page, the change handler followed by the refresh it starts (if it starts
  one), run undisturbed, and then the change handler once more with the same checkboxes
  ticked, again followed by its refresh against the same backend, leave the topic
  container exactly as the first round left it.
\<close>

lemma same_selection_twice_bound:
  assumes "globals p ''selectedSubjects'' = Some d"
  shows "topics_container (settle q (handleSubjectChange (settle q (handleSubjectChange p))))
       = topics_container (settle q (handleSubjectChange p))"
proof -
  define S where "S = checked (subjects_container p)"
  define d1 where "d1 = fold set_add S (set_clear d)"
  define p1 where "p1 = p\<lparr>globals := (globals p)(''selectedSubjects'' \<mapsto> d1)\<rparr>"
  define d2 where "d2 = fold set_add S (set_clear d1)"
  have v: "set_values d2 = set_values d1"
    by (simp add: d1_def d2_def set_values_fold_add)
  show ?thesis
  proof (cases "S = []")
    case True
    define P1 where "P1 = clearSubtopics (clearTopics p1)"
    have h1: "handleSubjectChange p = Inr (P1, None)"
      using assms True
      by (simp add: handleSubjectChange_selected S_def [symmetric] P1_def p1_def d1_def)
    have "globals P1 ''selectedSubjects'' = Some d1" "checked (subjects_container P1) = []"
      using True by (simp_all add: P1_def p1_def clearTopics_def clearSubtopics_def S_def)
    then have "\<exists>P2. handleSubjectChange P1 = Inr (P2, None)
        \<and> topics_container P2 = topics_container P1"
      by (simp add: handleSubjectChange_selected P1_def clearTopics_def clearSubtopics_def)
    with h1 show ?thesis by auto
  next
    case False
    define P1 where "P1 = topics_seq q (set_values d1) []
        (p1\<lparr>topics_container := Spinner ''Loading topics...''\<rparr>)"
    have h1: "handleSubjectChange p = Inr (loadTopics p1)"
      using assms False
      by (simp add: handleSubjectChange_selected S_def [symmetric] p1_def d1_def)
    have "globals p1 ''selectedSubjects'' = Some d1"
      by (simp add: p1_def)
    then have r1: "run_topics q (loadTopics p1) = P1"
      unfolding P1_def by (rule run_topics_loadTopics)
    have f: "globals P1 ''selectedSubjects'' = Some d1"
      "subjects_container P1 = subjects_container p"
      "attribute_value P1 = attribute_value p1"
      by (simp_all add: P1_def topics_seq_frame p1_def)
    define p2 where "p2 = P1\<lparr>globals := (globals P1)(''selectedSubjects'' \<mapsto> d2)\<rparr>"
    have h2: "handleSubjectChange P1 = Inr (loadTopics p2)"
      using f False
      by (simp add: handleSubjectChange_selected S_def [symmetric] p2_def d2_def)
    have "globals p2 ''selectedSubjects'' = Some d2"
      by (simp add: p2_def)
    then have "run_topics q (loadTopics p2) = topics_seq q (set_values d2) []
        (p2\<lparr>topics_container := Spinner ''Loading topics...''\<rparr>)"
      by (rule run_topics_loadTopics)
    moreover have "topics_container (topics_seq q (set_values d1) []
          (p2\<lparr>topics_container := Spinner ''Loading topics...''\<rparr>))
        = topics_container (topics_seq q (set_values d1) []
          (p1\<lparr>topics_container := Spinner ''Loading topics...''\<rparr>))"
      by (rule topics_seq_container_cong) (simp_all add: p2_def f)
    ultimately have "topics_container (run_topics q (loadTopics p2)) = topics_container P1"
      by (simp add: v P1_def)
    with h1 h2 r1 show ?thesis by simp
  qed
qed



section \<open>The markdown shortcuts: property\<close>

lemma substring_within:
  "a \<le> b \<Longrightarrow> b \<le> length v \<Longrightarrow> substring v a b = take (b - a) (drop a v)"
  by (simp add: substring_def Let_def min_def max_def)

lemma substring_from_within: "a \<le> length v \<Longrightarrow> substring_from v a = drop a v"
  by (simp add: substring_from_def substring_within)

lemma setSelectionRange_collapsed:
  "a \<le> length (text_value t) \<Longrightarrow>
   setSelectionRange a a t = t\<lparr>selectionStart := a, selectionEnd := a\<rparr>"
  by (simp add: setSelectionRange_def Let_def min_def)

text \<open>
  C10. For a textarea whose selection \<open>[start, end]\<close> lies within its value \<open>v\<close> with
  \<open>start \<le> end\<close>, \<open>insertMarkdownFormat before after\<close> sets the value to the prefix of
  \<open>v\<close> up to \<open>start\<close>, then \<open>before\<close>, the selected text \<open>v[start..end)\<close>, \<open>after\<close>, and
  the suffix of \<open>v\<close> from \<open>end\<close>; the selection is collapsed at
  \<open>start + length before + (end - start) + length after\<close>.
\<close>

theorem insertMarkdownFormat_wraps_selection:
  assumes "selectionStart t \<le> selectionEnd t" and "selectionEnd t \<le> length (text_value t)"
  shows "text_value (insertMarkdownFormat before after t) =
           take (selectionStart t) (text_value t) @ before
           @ take (selectionEnd t - selectionStart t) (drop (selectionStart t) (text_value t))
           @ after @ drop (selectionEnd t) (text_value t)
       \<and> selectionStart (insertMarkdownFormat before after t) =
           selectionStart t + length before + (selectionEnd t - selectionStart t) + length after
       \<and> selectionEnd (insertMarkdownFormat before after t) =
           selectionStart t + length before + (selectionEnd t - selectionStart t) + length after"
proof -
  define v where "v = text_value t"
  define a where "a = selectionStart t"
  define b where "b = selectionEnd t"
  have ab: "a \<le> b" "b \<le> length v" "a \<le> length v"
    using assms by (simp_all add: v_def a_def b_def)
  define sel where "sel = take (b - a) (drop a v)"
  have sel: "substring v a b = sel" "length sel = b - a"
    using ab by (simp_all add: sel_def substring_within min_absorb2)
  have pre: "substring v 0 a = take a v"
    using ab by (simp add: substring_within)
  have suf: "substring_from v b = drop b v"
    using ab by (simp add: substring_from_within)
  define t1 where "t1 = set_value (take a v @ (before @ sel @ after) @ drop b v) t"
  define c where "c = a + length before + length sel + length after"
  have c: "c \<le> length (text_value t1)"
    using ab by (simp add: t1_def c_def set_value_def)
  have "insertMarkdownFormat before after t = (setSelectionRange c c t1)\<lparr>focused := True\<rparr>"
    by (simp add: insertMarkdownFormat_def Let_def sel pre suf t1_def c_def
        v_def [symmetric] a_def [symmetric] b_def [symmetric])
  also have "\<dots> = t1\<lparr>selectionStart := c, selectionEnd := c, focused := True\<rparr>"
    using c by (simp add: setSelectionRange_collapsed)
  finally have r: "insertMarkdownFormat before after t
      = t1\<lparr>selectionStart := c, selectionEnd := c, focused := True\<rparr>" .
  have "text_value t1 = take a v @ before @ sel @ after @ drop b v"
    by (simp add: t1_def set_value_def)
  with r sel show ?thesis
    by (simp add: c_def sel_def v_def a_def b_def)
qed

theorem insertMarkdownFormat_wraps_selection_witness:
  "(let t = \<lparr>text_value = ''make bold now'', selectionStart = 5, selectionEnd = 9,
             focused = False\<rparr>;
        t' = insertMarkdownFormat ''**'' ''**'' t
    in selectionStart t \<le> selectionEnd t \<and> selectionEnd t \<le> length (text_value t)
       \<and> text_value t' = ''make **bold** now''
       \<and> selectionStart t' = 13 \<and> selectionEnd t' = 13)"
  using insertMarkdownFormat_wraps_selection
    [of "\<lparr>text_value = ''make bold now'', selectionStart = 5, selectionEnd = 9, focused = False\<rparr>"
        "''**''" "''**''"]
  by (simp add: Let_def)

end
